theory Spec2Isabelle
  imports Main "HOL-Library.AList"
begin

section \<open>godep: the data model\<close>

text \<open>
  The program keeps two global tables, \<^verbatim>\<open>packages\<close> (a Go \<^verbatim>\<open>map[string]Package\<close>) and
  \<^verbatim>\<open>roots\<close> (a Go \<^verbatim>\<open>map[string]string\<close>); here they are passed explicitly.

  A Go map that the program enumerates with \<^verbatim>\<open>range\<close> is an association list with
  distinct keys: the list order is the order in which \<^verbatim>\<open>range\<close> yields the entries,
  which the language leaves unspecified. Lookup \<^verbatim>\<open>m[k]\<close> is \<open>map_of\<close>. The table
  \<^verbatim>\<open>roots\<close> is only ever looked up, so it is a plain map.
\<close>

record Package =
  files :: "string list"
  packages :: "(string \<times> string) list"
  hasMain :: bool

type_synonym registry = "(string \<times> Package) list"

type_synonym roots = "string \<rightharpoonup> string"

text \<open>
  What the parser hands back for one file, as far as the program looks at it: the package
  name (\<^verbatim>\<open>file.Name.Name\<close>), for every \<^verbatim>\<open>ImportSpec\<close> node, in the order the walk visits
  them, the value \<^verbatim>\<open>path.Clean(strings.Trim(spec.Path.Value, "\""))\<close>, and the names of the
  \<^verbatim>\<open>FuncDecl\<close> nodes.
\<close>

record ast_File =
  Name :: string
  Imports :: "string list"
  FuncDecls :: "string list"

section \<open>addRoot\<close>

text \<open>
  \<^verbatim>\<open>strings.Split(s, ".", -1)\<close> for a separator of one character: the pieces of \<open>s\<close>
  between the occurrences of the separator, so one piece more than there are separators.
\<close>

fun Split :: "string \<Rightarrow> char \<Rightarrow> string list" where
  "Split [] c = [[]]"
| "Split (x # xs) c =
     (if x = c then [] # Split xs c
      else (case Split xs c of [] \<Rightarrow> [[x]] | p # ps \<Rightarrow> (x # p) # ps))"

text \<open>
  \<^verbatim>\<open>fparts[0]\<close> panics on an empty slice; \<open>None\<close> is that panic.
\<close>

definition addRoot :: "string \<Rightarrow> roots \<Rightarrow> roots option" where
  "addRoot filename rts =
     (let fparts = Split filename (CHR ''.'') in
      case fparts of
        [] \<Rightarrow> None
      | basename # _ \<Rightarrow> Some (rts(filename \<mapsto> basename)))"

section \<open>HandleFile: the package registry\<close>

text \<open>
  \<^verbatim>\<open>ImportVisitor.Visit\<close> at an \<^verbatim>\<open>ImportSpec\<close> node whose cleaned path is \<open>ppath\<close>: the path is
  stored under itself unless the key is there already. Other nodes change nothing.
\<close>

definition ImportVisitor_Visit :: "string \<Rightarrow> Package \<Rightarrow> Package" where
  "ImportVisitor_Visit ppath pkg =
     (case map_of (packages pkg) ppath of
        None \<Rightarrow> pkg\<lparr>packages := packages pkg @ [(ppath, ppath)]\<rparr>
      | Some _ \<Rightarrow> pkg)"

text \<open>
  \<^verbatim>\<open>HandleFile\<close>: the file name is pushed on the vector of the package named by the file,
  which is created empty when the name is new, and the walk then visits the import
  specifications. The vector is held by pointer and the import table is a Go map, so the
  walk changes the registered package itself. A new key is put at the end of the
  enumeration order (\<open>AList.update\<close> replaces in place, or appends); every property of the
  emission passes below is proved for every order.
\<close>

definition HandleFile :: "string \<Rightarrow> ast_File \<Rightarrow> registry \<Rightarrow> registry" where
  "HandleFile fname file reg =
     (let pkgname = Name file;
          pkg = (case map_of reg pkgname of
                   Some pkg \<Rightarrow> pkg\<lparr>files := files pkg @ [fname]\<rparr>
                 | None \<Rightarrow> \<lparr>files = [fname], packages = [], hasMain = False\<rparr>)
      in AList.update pkgname (fold ImportVisitor_Visit (Imports file) pkg) reg)"

section \<open>FindMain: the roots\<close>

text \<open>
  The parser is not part of the program. \<open>ParseFile fname mode\<close> is the pair
  \<^verbatim>\<open>(file, err)\<close> that \<^verbatim>\<open>parser.ParseFile(fname, nil, mode)\<close> returns: \<open>None\<close> as the
  file is the nil pointer, \<open>None\<close> as the error is \<^verbatim>\<open>err == nil\<close>. Mode \<open>0\<close> of the source
  is \<open>ParseAll\<close>.
\<close>

datatype mode = ImportsOnly | ParseAll

type_synonym parser = "string \<Rightarrow> mode \<Rightarrow> ast_File option \<times> string option"

definition MainCheckVisitor_Visit :: "string \<Rightarrow> string \<Rightarrow> roots \<Rightarrow> roots option" where
  "MainCheckVisitor_Visit fname declname rts =
     (if declname = ''main'' then addRoot fname rts else Some rts)"

fun Walk_MainCheck :: "string \<Rightarrow> string list \<Rightarrow> roots \<Rightarrow> roots option" where
  "Walk_MainCheck fname [] rts = Some rts"
| "Walk_MainCheck fname (d # ds) rts =
     (case MainCheckVisitor_Visit fname d rts of
        None \<Rightarrow> None
      | Some rts' \<Rightarrow> Walk_MainCheck fname ds rts')"

text \<open>
  The loop of \<^verbatim>\<open>FindMain\<close>. The error of the second parse is dropped (\<^verbatim>\<open>file, _ :=\<close>) and
  whatever file came back is walked; walking the nil file is a panic (\<open>None\<close>).
\<close>

fun FindMain_loop :: "parser \<Rightarrow> string list \<Rightarrow> roots \<Rightarrow> roots option" where
  "FindMain_loop ParseFile [] rts = Some rts"
| "FindMain_loop ParseFile (fname # rest) rts =
     (case fst (ParseFile fname ParseAll) of
        None \<Rightarrow> None
      | Some file \<Rightarrow>
          (case Walk_MainCheck fname (FuncDecls file) rts of
             None \<Rightarrow> None
           | Some rts' \<Rightarrow> FindMain_loop ParseFile rest rts'))"

definition FindMain :: "parser \<Rightarrow> registry \<Rightarrow> roots \<Rightarrow> roots option" where
  "FindMain ParseFile reg rts =
     (case map_of reg ''main'' of
        Some pkg \<Rightarrow> FindMain_loop ParseFile (files pkg) rts
      | None \<Rightarrow> Some rts)"

section \<open>The emission passes\<close>

text \<open>
  Each pass is modelled twice over: the sequence of things it prints, and the text, which
  is that sequence with the format strings of the \<^verbatim>\<open>Printf\<close> calls around each one.
\<close>

definition newline :: string where
  "newline = [CHR 0x0A]"

subsection \<open>PrintNeeded\<close>

text \<open>
  The inner loop over \<^verbatim>\<open>pkg.packages\<close>, with the table \<^verbatim>\<open>done\<close> (a missing key reads as
  false) and the names printed so far.
\<close>

fun PrintNeeded_pkg ::
  "registry \<Rightarrow> string list \<Rightarrow> (string \<Rightarrow> bool) \<times> string list \<Rightarrow> (string \<Rightarrow> bool) \<times> string list"
where
  "PrintNeeded_pkg reg [] st = st"
| "PrintNeeded_pkg reg (pkgname # rest) (dn, out) =
     (if map_of reg pkgname = None \<and> \<not> dn pkgname
      then PrintNeeded_pkg reg rest (dn(pkgname := True), out @ [pkgname])
      else PrintNeeded_pkg reg rest (dn, out))"

fun PrintNeeded_loop ::
  "registry \<Rightarrow> registry \<Rightarrow> (string \<Rightarrow> bool) \<times> string list \<Rightarrow> (string \<Rightarrow> bool) \<times> string list"
where
  "PrintNeeded_loop reg [] st = st"
| "PrintNeeded_loop reg ((name, pkg) # rest) st =
     PrintNeeded_loop reg rest (PrintNeeded_pkg reg (map snd (packages pkg)) st)"

definition needed :: "registry \<Rightarrow> string list" where
  "needed reg = snd (PrintNeeded_loop reg reg (\<lambda>_. False, []))"

definition PrintNeeded :: "string \<Rightarrow> string \<Rightarrow> registry \<Rightarrow> string" where
  "PrintNeeded pre ppost reg =
     pre @ concat (map (\<lambda>pkgname. pkgname @ ppost @ '' '') (needed reg)) @ newline"

subsection \<open>PrintFList\<close>

fun PrintFList_pkg ::
  "string list \<Rightarrow> (string \<Rightarrow> bool) \<times> string list \<Rightarrow> (string \<Rightarrow> bool) \<times> string list"
where
  "PrintFList_pkg [] st = st"
| "PrintFList_pkg (fname # rest) (dn, out) =
     (if \<not> dn fname
      then PrintFList_pkg rest (dn(fname := True), out @ [fname])
      else PrintFList_pkg rest (dn, out))"

fun PrintFList_loop ::
  "registry \<Rightarrow> (string \<Rightarrow> bool) \<times> string list \<Rightarrow> (string \<Rightarrow> bool) \<times> string list"
where
  "PrintFList_loop [] st = st"
| "PrintFList_loop ((name, pkg) # rest) st = PrintFList_loop rest (PrintFList_pkg (files pkg) st)"

definition flist :: "registry \<Rightarrow> string list" where
  "flist reg = snd (PrintFList_loop reg (\<lambda>_. False, []))"

definition PrintFList :: "registry \<Rightarrow> string" where
  "PrintFList reg = ''GOFILES = '' @ concat (map (\<lambda>fname. fname @ '' '') (flist reg)) @ newline"

subsection \<open>PrintDeps\<close>

text \<open>
  The lines of \<^verbatim>\<open>PrintDeps\<close>. \<open>AppLine app\<close> is \<^verbatim>\<open>"%s: %s.${O}\n"\<close>. \<open>RuleLine t fs ps\<close> is
  a rule for the object \<open>t\<close>: \<^verbatim>\<open>"%s.${O}: "\<close>, then each file of \<open>fs\<close> as \<^verbatim>\<open>"%s "\<close>, then
  each package of \<open>ps\<close> as \<^verbatim>\<open>"%s.${O} "\<close>, then the end of the line.
\<close>

datatype line = AppLine string | RuleLine string "string list" "string list"

fun render :: "line \<Rightarrow> string" where
  "render (AppLine app) = app @ '': '' @ app @ ''.${O}'' @ newline"
| "render (RuleLine t fs ps) =
     t @ ''.${O}: '' @ concat (map (\<lambda>fname. fname @ '' '') fs)
       @ concat (map (\<lambda>pkgname. pkgname @ ''.${O} '') ps) @ newline"

text \<open>The first loop: one rule for every package but \<open>main\<close>.\<close>

definition pkg_rule :: "registry \<Rightarrow> bool \<Rightarrow> string \<Rightarrow> Package \<Rightarrow> line" where
  "pkg_rule reg showNeeded pkgname pkg =
     RuleLine pkgname (files pkg)
       (filter (\<lambda>pkgname. map_of reg pkgname \<noteq> None \<or> showNeeded) (map snd (packages pkg)))"

fun PrintDeps_packages :: "registry \<Rightarrow> bool \<Rightarrow> registry \<Rightarrow> line list" where
  "PrintDeps_packages reg showNeeded [] = []"
| "PrintDeps_packages reg showNeeded ((pkgname, pkg) # rest) =
     (if pkgname \<noteq> ''main''
      then pkg_rule reg showNeeded pkgname pkg # PrintDeps_packages reg showNeeded rest
      else PrintDeps_packages reg showNeeded rest)"

text \<open>The first loop over the files of \<open>main\<close>: a line for a root, or a push on \<open>common\<close>.\<close>

fun PrintDeps_apps :: "roots \<Rightarrow> string list \<Rightarrow> line list \<times> string list" where
  "PrintDeps_apps rts [] = ([], [])"
| "PrintDeps_apps rts (fname # rest) =
     (let (ls, common) = PrintDeps_apps rts rest in
      case rts fname of
        Some app \<Rightarrow> (AppLine app # ls, common)
      | None \<Rightarrow> (ls, fname # common))"

text \<open>The loop over \<^verbatim>\<open>main.packages\<close> inside one root's rule, with its own table \<^verbatim>\<open>done\<close>.\<close>

fun root_packages :: "registry \<Rightarrow> bool \<Rightarrow> string list \<Rightarrow> (string \<Rightarrow> bool) \<Rightarrow> string list" where
  "root_packages reg showNeeded [] dn = []"
| "root_packages reg showNeeded (pkgname # rest) dn =
     (if map_of reg pkgname \<noteq> None \<or> (showNeeded \<and> \<not> dn pkgname)
      then pkgname # root_packages reg showNeeded rest (dn(pkgname := True))
      else root_packages reg showNeeded rest dn)"

text \<open>The second loop over the files of \<open>main\<close>: the rule of every root.\<close>

fun PrintDeps_roots ::
  "registry \<Rightarrow> bool \<Rightarrow> roots \<Rightarrow> Package \<Rightarrow> string list \<Rightarrow> string list \<Rightarrow> line list"
where
  "PrintDeps_roots reg showNeeded rts mainpkg common [] = []"
| "PrintDeps_roots reg showNeeded rts mainpkg common (fname # rest) =
     (case rts fname of
        Some app \<Rightarrow>
          RuleLine app (fname # common)
            (root_packages reg showNeeded (map snd (packages mainpkg)) (\<lambda>_. False))
          # PrintDeps_roots reg showNeeded rts mainpkg common rest
      | None \<Rightarrow> PrintDeps_roots reg showNeeded rts mainpkg common rest)"

definition PrintDeps_main :: "registry \<Rightarrow> bool \<Rightarrow> roots \<Rightarrow> line list" where
  "PrintDeps_main reg showNeeded rts =
     (case map_of reg ''main'' of
        Some mainpkg \<Rightarrow>
          (let (ls, common) = PrintDeps_apps rts (files mainpkg) in
           ls @ PrintDeps_roots reg showNeeded rts mainpkg common (files mainpkg))
      | None \<Rightarrow> [])"

definition PrintDeps_lines :: "registry \<Rightarrow> bool \<Rightarrow> roots \<Rightarrow> line list" where
  "PrintDeps_lines reg showNeeded rts =
     PrintDeps_packages reg showNeeded reg @ PrintDeps_main reg showNeeded rts"

definition PrintDeps :: "registry \<Rightarrow> bool \<Rightarrow> roots \<Rightarrow> string" where
  "PrintDeps reg showNeeded rts = concat (map render (PrintDeps_lines reg showNeeded rts))"

section \<open>main\<close>

text \<open>
  The options, and what the program finds outside itself: the parser, the files that the
  walk of the directory finds when no argument is given, and the text that
  \<^verbatim>\<open>ShowVersion\<close> prints. A run ends with an exit status and the text on standard
  output, or in a panic.
\<close>

record opts =
  showVersion :: bool
  showNeeded :: bool
  Args :: "string list"

datatype outcome = Exit nat string | Panic string

text \<open>
  The loop of \<^verbatim>\<open>main\<close> over the files: a parse error is printed on standard error and the
  run exits with status 1; nothing has been printed on standard output yet.
\<close>

fun main_loop :: "parser \<Rightarrow> string list \<Rightarrow> registry \<Rightarrow> outcome + registry" where
  "main_loop ParseFile [] reg = Inr reg"
| "main_loop ParseFile (fname # rest) reg =
     (case ParseFile fname ImportsOnly of
        (_, Some e) \<Rightarrow> Inl (Exit 1 [])
      | (None, None) \<Rightarrow> Inl (Panic [])
      | (Some file, None) \<Rightarrow> main_loop ParseFile rest (HandleFile fname file reg))"

definition main :: "parser \<Rightarrow> string list \<Rightarrow> string \<Rightarrow> opts \<Rightarrow> outcome" where
  "main ParseFile walked version opt =
     (if showVersion opt then Exit 0 version
      else
        case main_loop ParseFile (if Args opt = [] then walked else Args opt) [] of
          Inl out \<Rightarrow> out
        | Inr reg \<Rightarrow>
            (case FindMain ParseFile reg Map.empty of
               None \<Rightarrow> Panic []
             | Some rts \<Rightarrow>
                 Exit 0
                   ((if showNeeded opt then PrintNeeded ''.EXTERNAL: '' ''.${O}'' reg else [])
                    @ PrintNeeded ''# external packages: '' [] reg
                    @ PrintFList reg
                    @ PrintDeps reg (showNeeded opt) rts)))"

section \<open>Notions used to state the properties\<close>

text \<open>
  A list without its repetitions, each element at the place of its first occurrence.
\<close>

fun first_seen :: "'a list \<Rightarrow> 'a list" where
  "first_seen [] = []"
| "first_seen (x # xs) = x # filter (\<lambda>y. y \<noteq> x) (first_seen xs)"

definition add_new :: "'a list \<Rightarrow> 'a list \<Rightarrow> 'a list" where
  "add_new out ys = out @ filter (\<lambda>y. y \<notin> set out) (first_seen ys)"

text \<open>
  The import targets and the files of a registry, package after package in the order of
  the enumeration, and inside a package in the order of its table and of its vector.
\<close>

definition import_targets :: "registry \<Rightarrow> string list" where
  "import_targets reg = concat (map (\<lambda>(name, pkg). map snd (packages pkg)) reg)"

definition all_files :: "registry \<Rightarrow> string list" where
  "all_files reg = concat (map (\<lambda>(name, pkg). files pkg) reg)"

text \<open>
  The registry after the loop of \<^verbatim>\<open>main\<close> has handled a sequence of files that all parse:
  \<open>inputs\<close> pairs each file name with what the parser returned for it.
\<close>

definition register_all :: "(string \<times> ast_File) list \<Rightarrow> registry" where
  "register_all inputs = fold (\<lambda>(fname, file). HandleFile fname file) inputs []"

text \<open>The file names of the inputs that declare the package \<open>name\<close>, in input order.\<close>

definition units_of :: "string \<Rightarrow> (string \<times> ast_File) list \<Rightarrow> string list" where
  "units_of name inputs = map fst (filter (\<lambda>(fname, file). Name file = name) inputs)"

text \<open>The import targets of the inputs that declare the package \<open>name\<close>.\<close>

definition imports_of :: "string \<Rightarrow> (string \<times> ast_File) list \<Rightarrow> string list" where
  "imports_of name inputs =
     concat (map (\<lambda>(fname, file). Imports file) (filter (\<lambda>(fname, file). Name file = name) inputs))"





section \<open>Properties of addRoot\<close>

lemma Split_not_Nil: "Split s c \<noteq> []"
  by (induction s) (auto split: list.splits)

lemma hd_Split: "hd (Split s c) = takeWhile (\<lambda>x. x \<noteq> c) s"
  by (induction s) (auto split: list.splits simp: Split_not_Nil)

lemma addRoot_eq:
  "addRoot filename rts = Some (rts(filename \<mapsto> takeWhile (\<lambda>x. x \<noteq> CHR ''.'') filename))"
proof -
  obtain b bs where sp: "Split filename (CHR ''.'') = b # bs"
    using Split_not_Nil by (cases "Split filename (CHR ''.'')") auto
  have "b = takeWhile (\<lambda>x. x \<noteq> CHR ''.'') filename"
    using hd_Split [of filename "CHR ''.''"] sp by simp
  with sp show ?thesis by (simp add: addRoot_def)
qed

text \<open>
  C3. For every filename, \<open>addRoot\<close> never panics and records for the filename the part of
  it before its first \<open>.\<close>: the filename is that part followed by nothing or by a rest that
  starts with \<open>.\<close>, and the part holds no \<open>.\<close>. So \<open>main.go\<close> gives \<open>main\<close>,
  \<open>app.v2.go\<close> gives \<open>app\<close>, and a filename without \<open>.\<close> gives itself.
\<close>

theorem addRoot_target_name:
  "\<exists>app rest. addRoot filename rts = Some (rts(filename \<mapsto> app))
      \<and> filename = app @ rest
      \<and> CHR ''.'' \<notin> set app
      \<and> (rest = [] \<or> (\<exists>r. rest = CHR ''.'' # r))
      \<and> (CHR ''.'' \<notin> set filename \<longrightarrow> app = filename)
      \<and> (filename = ''main.go'' \<longrightarrow> app = ''main'')
      \<and> (filename = ''app.v2.go'' \<longrightarrow> app = ''app'')"
proof -
  let ?P = "\<lambda>x. x \<noteq> CHR ''.''"
  let ?app = "takeWhile ?P filename"
  let ?rest = "dropWhile ?P filename"
  have 1: "addRoot filename rts = Some (rts(filename \<mapsto> ?app))" by (rule addRoot_eq)
  have 2: "filename = ?app @ ?rest" by simp
  have 3: "CHR ''.'' \<notin> set ?app" by (auto dest: set_takeWhileD)
  have 4: "?rest = [] \<or> (\<exists>r. ?rest = CHR ''.'' # r)"
  proof (cases ?rest)
    case Nil
    then show ?thesis by simp
  next
    case (Cons a r)
    then have "\<not> ?P a" using hd_dropWhile [of ?P filename] by auto
    with Cons show ?thesis by simp
  qed
  have 5: "CHR ''.'' \<notin> set filename \<longrightarrow> ?app = filename"
    by (auto intro: takeWhile_eq_all_conv [THEN iffD2])
  have 6: "filename = ''main.go'' \<longrightarrow> ?app = ''main''" by simp
  have 7: "filename = ''app.v2.go'' \<longrightarrow> ?app = ''app''" by simp
  from 1 2 3 4 5 6 7 show ?thesis by blast
qed

theorem addRoot_target_name_witness:
  "addRoot ''main.go'' Map.empty = Some [''main.go'' \<mapsto> ''main'']
   \<and> addRoot ''app.v2.go'' Map.empty = Some [''app.v2.go'' \<mapsto> ''app'']
   \<and> CHR ''.'' \<notin> set ''Makefile''
   \<and> addRoot ''Makefile'' Map.empty = Some [''Makefile'' \<mapsto> ''Makefile'']"
proof -
  have a: "addRoot ''main.go'' Map.empty = Some [''main.go'' \<mapsto> ''main'']"
    using addRoot_target_name [of "''main.go''" Map.empty] by auto
  have b: "addRoot ''app.v2.go'' Map.empty = Some [''app.v2.go'' \<mapsto> ''app'']"
    using addRoot_target_name [of "''app.v2.go''" Map.empty] by auto
  have c: "CHR ''.'' \<notin> set ''Makefile''" by simp
  have d: "addRoot ''Makefile'' Map.empty = Some [''Makefile'' \<mapsto> ''Makefile'']"
    using addRoot_target_name [of "''Makefile''" Map.empty] c by auto
  from a b c d show ?thesis by blast
qed

section \<open>Lists without repetitions\<close>

lemma set_first_seen: "set (first_seen xs) = set xs"
  by (induction xs) auto

lemma distinct_first_seen: "distinct (first_seen xs)"
  by (induction xs) (auto simp: set_first_seen)

lemma add_new_Nil: "add_new out [] = out"
  by (simp add: add_new_def)

lemma add_new_empty: "add_new [] ys = first_seen ys"
  by (simp add: add_new_def)

lemma add_new_Cons:
  "add_new out (x # ys) = (if x \<in> set out then add_new out ys else add_new (out @ [x]) ys)"
proof (cases "x \<in> set out")
  case True
  then have "filter (\<lambda>y. y \<notin> set out) (filter (\<lambda>y. y \<noteq> x) zs) = filter (\<lambda>y. y \<notin> set out) zs" for zs
    by (auto intro: filter_cong)
  with True show ?thesis by (simp add: add_new_def)
next
  case False
  have "filter (\<lambda>y. y \<notin> set out) (filter (\<lambda>y. y \<noteq> x) zs) = filter (\<lambda>y. y \<notin> set (out @ [x])) zs" for zs
    by (auto intro: filter_cong)
  with False show ?thesis by (simp add: add_new_def)
qed

lemma add_new_append: "add_new (add_new out xs) ys = add_new out (xs @ ys)"
  by (induction xs arbitrary: out) (simp_all add: add_new_Nil add_new_Cons)

lemma mem_upd: "(\<lambda>x. x \<in> set out)(p := True) = (\<lambda>x. x \<in> set (out @ [p]))"
  by (rule ext) auto

lemma count_list_distinct:
  "distinct xs \<Longrightarrow> count_list xs x = (if x \<in> set xs then 1 else 0)"
  by (induction xs) auto

lemma count_first_seen: "count_list (first_seen xs) x = (if x \<in> set xs then 1 else 0)"
  using count_list_distinct [OF distinct_first_seen, of xs x] by (simp add: set_first_seen)

section \<open>The loops of PrintNeeded and PrintFList in closed form\<close>

text \<open>
  Both passes keep the table \<^verbatim>\<open>done\<close> equal to the set of what they have printed, so each
  of them prints the candidates without repetitions, in the order of first occurrence.
\<close>

lemma PrintNeeded_pkg_eq:
  "PrintNeeded_pkg reg xs (\<lambda>x. x \<in> set out, out) =
     (\<lambda>x. x \<in> set (add_new out (filter (\<lambda>p. map_of reg p = None) xs)),
      add_new out (filter (\<lambda>p. map_of reg p = None) xs))"
proof (induction xs arbitrary: out)
  case Nil
  then show ?case by (simp add: add_new_Nil)
next
  case (Cons p ps)
  show ?case
    using Cons [of out] Cons [of "out @ [p]"]
    by (simp add: add_new_Cons mem_upd del: set_append)
qed

lemma PrintNeeded_loop_eq:
  "PrintNeeded_loop reg ps (\<lambda>x. x \<in> set out, out) =
     (\<lambda>x. x \<in> set (add_new out (filter (\<lambda>p. map_of reg p = None) (import_targets ps))),
      add_new out (filter (\<lambda>p. map_of reg p = None) (import_targets ps)))"
proof (induction ps arbitrary: out)
  case Nil
  then show ?case by (simp add: import_targets_def add_new_Nil)
next
  case (Cons a ps)
  obtain name pkg where a: "a = (name, pkg)" by (cases a)
  have it: "import_targets ((name, pkg) # ps) = map snd (packages pkg) @ import_targets ps"
    by (simp add: import_targets_def)
  show ?case
    by (simp add: a PrintNeeded_pkg_eq Cons it add_new_append)
qed

lemma needed_eq:
  "needed reg = first_seen (filter (\<lambda>p. map_of reg p = None) (import_targets reg))"
  using PrintNeeded_loop_eq [of reg reg "[]"] by (simp add: needed_def add_new_empty)

lemma PrintFList_pkg_eq:
  "PrintFList_pkg xs (\<lambda>x. x \<in> set out, out) = (\<lambda>x. x \<in> set (add_new out xs), add_new out xs)"
proof (induction xs arbitrary: out)
  case Nil
  then show ?case by (simp add: add_new_Nil)
next
  case (Cons p ps)
  show ?case
    using Cons [of out] Cons [of "out @ [p]"]
    by (simp add: add_new_Cons mem_upd del: set_append)
qed

lemma PrintFList_loop_eq:
  "PrintFList_loop ps (\<lambda>x. x \<in> set out, out) =
     (\<lambda>x. x \<in> set (add_new out (all_files ps)), add_new out (all_files ps))"
proof (induction ps arbitrary: out)
  case Nil
  then show ?case by (simp add: all_files_def add_new_Nil)
next
  case (Cons a ps)
  obtain name pkg where a: "a = (name, pkg)" by (cases a)
  have it: "all_files ((name, pkg) # ps) = files pkg @ all_files ps"
    by (simp add: all_files_def)
  show ?case
    by (simp add: a PrintFList_pkg_eq Cons it add_new_append)
qed

lemma flist_eq: "flist reg = first_seen (all_files reg)"
  using PrintFList_loop_eq [of reg "[]"] by (simp add: flist_def add_new_empty)

lemma set_import_targets:
  "set (import_targets reg) = {t. \<exists>(name, pkg) \<in> set reg. t \<in> snd ` set (packages pkg)}"
  by (auto simp: import_targets_def)

lemma set_all_files:
  "set (all_files reg) = {f. \<exists>(name, pkg) \<in> set reg. f \<in> set (files pkg)}"
  by (auto simp: all_files_def)

section \<open>PrintNeeded: the external dependencies\<close>

text \<open>
  C2. One run of the loops of \<open>PrintNeeded\<close> prints a name once when it is an import target
  of some package and no package of the registry has that name, and does not print it
  otherwise, however many packages import it. The text is the prefix, each of these
  names followed by the suffix and a space, and the end of the line.
\<close>

theorem PrintNeeded_exactly_once:
  "count_list (needed reg) t =
     (if (\<exists>(name, pkg) \<in> set reg. t \<in> snd ` set (packages pkg)) \<and> t \<notin> fst ` set reg
      then 1 else 0)
   \<and> PrintNeeded pre ppost reg
       = pre @ concat (map (\<lambda>pkgname. pkgname @ ppost @ '' '') (needed reg)) @ newline"
proof -
  have "map_of reg p = None \<longleftrightarrow> p \<notin> fst ` set reg" for p
    by (rule map_of_eq_None_iff)
  then have "count_list (needed reg) t =
     (if t \<in> set (import_targets reg) \<and> t \<notin> fst ` set reg then 1 else 0)"
    by (simp add: needed_eq count_first_seen)
  then show ?thesis
    by (simp add: set_import_targets PrintNeeded_def)
qed

theorem PrintNeeded_exactly_once_witness:
  "count_list
     (needed [(''x'', \<lparr>files = [''a.go''], packages = [(''fmt'', ''fmt''), (''y'', ''y'')], hasMain = False\<rparr>),
              (''y'', \<lparr>files = [''b.go''], packages = [(''fmt'', ''fmt'')], hasMain = False\<rparr>)])
     ''fmt'' = 1
   \<and> count_list
     (needed [(''x'', \<lparr>files = [''a.go''], packages = [(''fmt'', ''fmt''), (''y'', ''y'')], hasMain = False\<rparr>),
              (''y'', \<lparr>files = [''b.go''], packages = [(''fmt'', ''fmt'')], hasMain = False\<rparr>)])
     ''y'' = 0"
  using PrintNeeded_exactly_once
    [of "[(''x'', \<lparr>files = [''a.go''], packages = [(''fmt'', ''fmt''), (''y'', ''y'')], hasMain = False\<rparr>),
          (''y'', \<lparr>files = [''b.go''], packages = [(''fmt'', ''fmt'')], hasMain = False\<rparr>)]" "''fmt''"]
    PrintNeeded_exactly_once
    [of "[(''x'', \<lparr>files = [''a.go''], packages = [(''fmt'', ''fmt''), (''y'', ''y'')], hasMain = False\<rparr>),
          (''y'', \<lparr>files = [''b.go''], packages = [(''fmt'', ''fmt'')], hasMain = False\<rparr>)]" "''y''"]
  by simp

section \<open>The registry after a sequence of registrations\<close>

lemma files_Visit: "files (ImportVisitor_Visit p pkg) = files pkg"
  by (simp add: ImportVisitor_Visit_def split: option.splits)

lemma files_fold_Visit: "files (fold ImportVisitor_Visit ps pkg) = files pkg"
  by (induction ps arbitrary: pkg) (simp_all add: files_Visit)

lemma set_packages_Visit:
  "snd ` set (packages pkg) = fst ` set (packages pkg) \<Longrightarrow>
   snd ` set (packages (ImportVisitor_Visit p pkg)) = insert p (snd ` set (packages pkg))
   \<and> fst ` set (packages (ImportVisitor_Visit p pkg)) = insert p (fst ` set (packages pkg))"
  by (auto simp: ImportVisitor_Visit_def map_of_eq_None_iff split: option.splits dest!: map_of_SomeD)
     (force+)

lemma set_packages_fold_Visit:
  "snd ` set (packages pkg) = fst ` set (packages pkg) \<Longrightarrow>
   snd ` set (packages (fold ImportVisitor_Visit ps pkg)) = set ps \<union> snd ` set (packages pkg)
   \<and> fst ` set (packages (fold ImportVisitor_Visit ps pkg)) = set ps \<union> fst ` set (packages pkg)"
proof (induction ps arbitrary: pkg)
  case Nil
  then show ?case by simp
next
  case (Cons p ps)
  from set_packages_Visit [OF Cons.prems, of p]
  have 1: "snd ` set (packages (ImportVisitor_Visit p pkg)) = insert p (snd ` set (packages pkg))"
    and 2: "fst ` set (packages (ImportVisitor_Visit p pkg)) = insert p (fst ` set (packages pkg))"
    by blast+
  from 1 2 Cons.prems
  have 3: "snd ` set (packages (ImportVisitor_Visit p pkg)) = fst ` set (packages (ImportVisitor_Visit p pkg))"
    by simp
  from Cons.IH [OF 3] 1 2 show ?case by auto
qed

lemma map_of_HandleFile:
  "map_of (HandleFile fname file reg) name =
     (if name = Name file
      then Some (fold ImportVisitor_Visit (Imports file)
                   (case map_of reg name of
                      Some pkg \<Rightarrow> pkg\<lparr>files := files pkg @ [fname]\<rparr>
                    | None \<Rightarrow> \<lparr>files = [fname], packages = [], hasMain = False\<rparr>))
      else map_of reg name)"
  by (simp add: HandleFile_def Let_def update_conv')

lemma distinct_HandleFile:
  "distinct (map fst reg) \<Longrightarrow> distinct (map fst (HandleFile fname file reg))"
  by (simp add: HandleFile_def Let_def distinct_update)

lemma register_all_snoc:
  "register_all (inputs @ [(fname, file)]) = HandleFile fname file (register_all inputs)"
  by (simp add: register_all_def)

lemma distinct_register_all: "distinct (map fst (register_all inputs))"
proof (induction inputs rule: rev_induct)
  case Nil
  then show ?case by (simp add: register_all_def)
next
  case (snoc x xs)
  obtain fname ast where x: "x = (fname, ast)" by (cases x)
  from snoc show ?case by (simp add: x register_all_snoc distinct_HandleFile)
qed

text \<open>The registered package of a name, in terms of the inputs.\<close>

lemma map_of_register_all:
  "case map_of (register_all inputs) name of
     None \<Rightarrow> units_of name inputs = []
   | Some pkg \<Rightarrow> units_of name inputs \<noteq> [] \<and> files pkg = units_of name inputs
       \<and> snd ` set (packages pkg) = set (imports_of name inputs)
       \<and> fst ` set (packages pkg) = set (imports_of name inputs)"
proof (induction inputs rule: rev_induct)
  case Nil
  then show ?case by (simp add: register_all_def units_of_def)
next
  case (snoc x xs)
  obtain fname ast where x: "x = (fname, ast)" by (cases x)
  show ?case
  proof (cases "name = Name ast")
    case False
    have u: "units_of name (xs @ [x]) = units_of name xs"
      using False by (simp add: x units_of_def)
    have i: "imports_of name (xs @ [x]) = imports_of name xs"
      using False by (simp add: x imports_of_def)
    have m: "map_of (register_all (xs @ [x])) name = map_of (register_all xs) name"
      using False by (simp add: x register_all_snoc map_of_HandleFile)
    from snoc show ?thesis by (simp only: u i m)
  next
    case True
    let ?old = "map_of (register_all xs) name"
    let ?pkg0 = "case ?old of Some pkg \<Rightarrow> pkg\<lparr>files := files pkg @ [fname]\<rparr>
                 | None \<Rightarrow> \<lparr>files = [fname], packages = [], hasMain = False\<rparr>"
    have u: "units_of name (xs @ [x]) = units_of name xs @ [fname]"
      using True by (simp add: x units_of_def)
    have i: "imports_of name (xs @ [x]) = imports_of name xs @ Imports ast"
      using True by (simp add: x imports_of_def)
    have f0: "files ?pkg0 = units_of name xs @ [fname]"
      using snoc by (auto split: option.splits)
    have p0: "snd ` set (packages ?pkg0) = set (imports_of name xs)
              \<and> fst ` set (packages ?pkg0) = set (imports_of name xs)"
      using snoc by (auto split: option.splits simp: imports_of_def units_of_def filter_empty_conv)
    then have eq: "snd ` set (packages ?pkg0) = fst ` set (packages ?pkg0)" by simp
    have m: "map_of (register_all (xs @ [x])) name = Some (fold ImportVisitor_Visit (Imports ast) ?pkg0)"
      using True by (simp add: x register_all_snoc map_of_HandleFile)
    show ?thesis
      using set_packages_fold_Visit [OF eq, of "Imports ast"] p0 f0
      by (simp only: m option.case u i files_fold_Visit) auto
  qed
qed

lemma registered_package:
  assumes "(name, pkg) \<in> set (register_all inputs)"
  shows "files pkg = units_of name inputs"
    and "snd ` set (packages pkg) = set (imports_of name inputs)"
    and "units_of name inputs \<noteq> []"
proof -
  have "map_of (register_all inputs) name = Some pkg"
    using assms distinct_register_all by (rule_tac map_of_is_SomeI)
  with map_of_register_all [where inputs = inputs and name = name]
  show "files pkg = units_of name inputs"
    and "snd ` set (packages pkg) = set (imports_of name inputs)"
    and "units_of name inputs \<noteq> []"
    by simp_all
qed

lemma registered_unit:
  assumes "(fname, ast) \<in> set inputs"
  shows "\<exists>pkg. (Name ast, pkg) \<in> set (register_all inputs) \<and> fname \<in> set (files pkg)"
proof -
  have in_units: "fname \<in> set (units_of (Name ast) inputs)"
    using assms by (force simp: units_of_def)
  then have "units_of (Name ast) inputs \<noteq> []" by auto
  with map_of_register_all [where inputs = inputs and name = "Name ast"]
  obtain pkg where m: "map_of (register_all inputs) (Name ast) = Some pkg"
    and f: "files pkg = units_of (Name ast) inputs"
    by (cases "map_of (register_all inputs) (Name ast)") auto
  from m have "(Name ast, pkg) \<in> set (register_all inputs)" by (rule map_of_SomeD)
  with f in_units show ?thesis by auto
qed

lemma set_units_of: "set (units_of name inputs) \<subseteq> fst ` set inputs"
  by (auto simp: units_of_def)

lemma all_files_registered:
  assumes "set reg = set (register_all inputs)"
  shows "all_files reg = concat (map (\<lambda>(name, pkg). units_of name inputs) reg)"
    and "set (all_files reg) = fst ` set inputs"
proof -
  have "map (\<lambda>(name, pkg). files pkg) reg = map (\<lambda>(name, pkg). units_of name inputs) reg"
    by (rule map_cong) (use assms registered_package(1) in auto)
  then show "all_files reg = concat (map (\<lambda>(name, pkg). units_of name inputs) reg)"
    unfolding all_files_def by (rule arg_cong [where f = concat])
  show "set (all_files reg) = fst ` set inputs"
  proof
    show "set (all_files reg) \<subseteq> fst ` set inputs"
      using assms registered_package(1) set_units_of by (fastforce simp: set_all_files)
    show "fst ` set inputs \<subseteq> set (all_files reg)"
    proof
      fix f assume "f \<in> fst ` set inputs"
      then obtain ast where "(f, ast) \<in> set inputs" by auto
      from registered_unit [OF this] assms show "f \<in> set (all_files reg)"
        by (auto simp: set_all_files)
    qed
  qed
qed

section \<open>PrintFList: the list of all files\<close>

text \<open>
  C5, as amended. \<open>PrintFList\<close> prints every file of the registry once and nothing else:
  the files of the packages, package after package in the order in which the registry is
  enumerated and inside a package in the order of registration, each at the place where
  it is first seen. For every enumeration of the packages registered from a sequence of
  inputs, the files of a package are the inputs that declare it, in input order, and the
  files printed are the file names of the inputs.
\<close>

theorem PrintFList_first_seen:
  "flist reg = first_seen (all_files reg)
   \<and> count_list (flist reg) f = (if (\<exists>(name, pkg) \<in> set reg. f \<in> set (files pkg)) then 1 else 0)
   \<and> (set reg = set (register_all inputs) \<longrightarrow>
        all_files reg = concat (map (\<lambda>(name, pkg). units_of name inputs) reg)
        \<and> set (flist reg) = fst ` set inputs)
   \<and> PrintFList reg = ''GOFILES = '' @ concat (map (\<lambda>fname. fname @ '' '') (flist reg)) @ newline"
proof -
  have 1: "flist reg = first_seen (all_files reg)" by (rule flist_eq)
  have 2: "count_list (flist reg) f = (if (\<exists>(name, pkg) \<in> set reg. f \<in> set (files pkg)) then 1 else 0)"
    by (simp add: flist_eq count_first_seen set_all_files)
  have 3: "set reg = set (register_all inputs) \<longrightarrow>
        all_files reg = concat (map (\<lambda>(name, pkg). units_of name inputs) reg)
        \<and> set (flist reg) = fst ` set inputs"
    using all_files_registered [of reg inputs] by (simp add: flist_eq set_first_seen)
  have 4: "PrintFList reg = ''GOFILES = '' @ concat (map (\<lambda>fname. fname @ '' '') (flist reg)) @ newline"
    by (simp add: PrintFList_def)
  from 1 2 3 4 show ?thesis by blast
qed

theorem PrintFList_first_seen_witness:
  "set [(''y'', \<lparr>files = [''b.go''], packages = [], hasMain = False\<rparr>),
        (''x'', \<lparr>files = [''a.go'', ''c.go''], packages = [], hasMain = False\<rparr>)]
   = set (register_all
       [(''a.go'', \<lparr>Name = ''x'', Imports = [], FuncDecls = []\<rparr>),
        (''b.go'', \<lparr>Name = ''y'', Imports = [], FuncDecls = []\<rparr>),
        (''c.go'', \<lparr>Name = ''x'', Imports = [], FuncDecls = []\<rparr>)])
   \<and> flist [(''y'', \<lparr>files = [''b.go''], packages = [], hasMain = False\<rparr>),
             (''x'', \<lparr>files = [''a.go'', ''c.go''], packages = [], hasMain = False\<rparr>)]
       = [''b.go'', ''a.go'', ''c.go'']
   \<and> count_list
        (flist [(''y'', \<lparr>files = [''b.go''], packages = [], hasMain = False\<rparr>),
                (''x'', \<lparr>files = [''a.go'', ''c.go''], packages = [], hasMain = False\<rparr>)])
        ''c.go'' = 1
   \<and> set (flist [(''y'', \<lparr>files = [''b.go''], packages = [], hasMain = False\<rparr>),
                  (''x'', \<lparr>files = [''a.go'', ''c.go''], packages = [], hasMain = False\<rparr>)])
       = {''a.go'', ''b.go'', ''c.go''}"
proof -
  let ?reg = "[(''y'', \<lparr>files = [''b.go''], packages = [], hasMain = False\<rparr>),
               (''x'', \<lparr>files = [''a.go'', ''c.go''], packages = [], hasMain = False\<rparr>)]"
  let ?inputs = "[(''a.go'', \<lparr>Name = ''x'', Imports = [], FuncDecls = []\<rparr>),
                  (''b.go'', \<lparr>Name = ''y'', Imports = [], FuncDecls = []\<rparr>),
                  (''c.go'', \<lparr>Name = ''x'', Imports = [], FuncDecls = []\<rparr>)]"
  have r: "register_all ?inputs
           = [(''x'', \<lparr>files = [''a.go'', ''c.go''], packages = [], hasMain = False\<rparr>),
              (''y'', \<lparr>files = [''b.go''], packages = [], hasMain = False\<rparr>)]"
    by (simp add: register_all_def HandleFile_def)
  have h: "set ?reg = set (register_all ?inputs)"
    by (simp only: r) auto
  have af: "all_files ?reg = [''b.go'', ''a.go'', ''c.go'']"
    by (simp add: all_files_def)
  from PrintFList_first_seen [of ?reg "''c.go''" ?inputs] h
  have a: "flist ?reg = first_seen (all_files ?reg)"
    and b: "count_list (flist ?reg) ''c.go'' = (if (\<exists>(name, pkg) \<in> set ?reg. ''c.go'' \<in> set (files pkg)) then 1 else 0)"
    and c: "set (flist ?reg) = fst ` set ?inputs"
    by blast+
  from a af have 1: "flist ?reg = [''b.go'', ''a.go'', ''c.go'']" by simp
  from b have 2: "count_list (flist ?reg) ''c.go'' = 1" by simp
  from c have 3: "set (flist ?reg) = {''a.go'', ''b.go'', ''c.go''}" by auto
  from h 1 2 3 show ?thesis by blast
qed

text \<open>
  C5. The order is not the order in which the files were given: of three files given in the
  order \<open>a.go\<close>, \<open>b.go\<close>, \<open>c.go\<close>, the first and the third in one package, the third is
  printed before or after both others, whichever of the two packages is enumerated first.
\<close>

theorem PrintFList_discovery_order_counterexample:
  "flist (register_all
       [(''a.go'', \<lparr>Name = ''x'', Imports = [], FuncDecls = []\<rparr>),
        (''b.go'', \<lparr>Name = ''y'', Imports = [], FuncDecls = []\<rparr>),
        (''c.go'', \<lparr>Name = ''x'', Imports = [], FuncDecls = []\<rparr>)])
     \<noteq> [''a.go'', ''b.go'', ''c.go'']
   \<and> flist (rev (register_all
       [(''a.go'', \<lparr>Name = ''x'', Imports = [], FuncDecls = []\<rparr>),
        (''b.go'', \<lparr>Name = ''y'', Imports = [], FuncDecls = []\<rparr>),
        (''c.go'', \<lparr>Name = ''x'', Imports = [], FuncDecls = []\<rparr>)]))
     \<noteq> [''a.go'', ''b.go'', ''c.go'']"
  by (simp add: register_all_def HandleFile_def flist_def)

section \<open>The import targets of a registered package\<close>

text \<open>
  C8, as amended. After any sequence of registrations, the import targets of a package of
  the registry are the import targets of the inputs that declare the package; so the
  package's own name is among them exactly when one of these inputs imports that name.
\<close>

theorem import_targets_of_registered_package:
  assumes "(name, pkg) \<in> set (register_all inputs)"
  shows "snd ` set (packages pkg) = set (imports_of name inputs)
    \<and> (name \<in> snd ` set (packages pkg)
         \<longleftrightarrow> (\<exists>(fname, ast) \<in> set inputs. Name ast = name \<and> name \<in> set (Imports ast)))"
proof -
  have 1: "snd ` set (packages pkg) = set (imports_of name inputs)"
    using assms by (rule registered_package(2))
  have 2: "name \<in> set (imports_of name inputs)
         \<longleftrightarrow> (\<exists>(fname, ast) \<in> set inputs. Name ast = name \<and> name \<in> set (Imports ast))"
    by (auto simp: imports_of_def)
  from 1 2 show ?thesis by simp
qed

theorem import_targets_of_registered_package_witness:
  "(''x'', \<lparr>files = [''a.go'', ''c.go''], packages = [(''fmt'', ''fmt''), (''y'', ''y'')], hasMain = False\<rparr>)
     \<in> set (register_all
       [(''a.go'', \<lparr>Name = ''x'', Imports = [''fmt'', ''y''], FuncDecls = []\<rparr>),
        (''c.go'', \<lparr>Name = ''x'', Imports = [''y''], FuncDecls = []\<rparr>)])
   \<and> ''x'' \<notin> snd ` set [(''fmt'', ''fmt''), (''y'', ''y'')]"
proof -
  let ?pkg = "\<lparr>files = [''a.go'', ''c.go''], packages = [(''fmt'', ''fmt''), (''y'', ''y'')], hasMain = False\<rparr>"
  let ?inputs = "[(''a.go'', \<lparr>Name = ''x'', Imports = [''fmt'', ''y''], FuncDecls = []\<rparr>),
                  (''c.go'', \<lparr>Name = ''x'', Imports = [''y''], FuncDecls = []\<rparr>)]"
  have h: "(''x'', ?pkg) \<in> set (register_all ?inputs)"
    by (simp add: register_all_def HandleFile_def ImportVisitor_Visit_def)
  from import_targets_of_registered_package [OF h]
  have "''x'' \<in> snd ` set (packages ?pkg)
         \<longleftrightarrow> (\<exists>(fname, ast) \<in> set ?inputs. Name ast = ''x'' \<and> ''x'' \<in> set (Imports ast))"
    by blast
  then have "''x'' \<notin> snd ` set [(''fmt'', ''fmt''), (''y'', ''y'')]" by simp
  with h show ?thesis by blast
qed

text \<open>
  C8. A file of the package \<open>y\<close> that imports the path \<open>y\<close> puts the package's own name among
  the import targets of the package.
\<close>

theorem own_name_imported_counterexample:
  "register_all [(''b.go'', \<lparr>Name = ''y'', Imports = [''y''], FuncDecls = []\<rparr>)]
     = [(''y'', \<lparr>files = [''b.go''], packages = [(''y'', ''y'')], hasMain = False\<rparr>)]
   \<and> ''y'' \<in> snd ` set (packages \<lparr>files = [''b.go''], packages = [(''y'', ''y'')], hasMain = False\<rparr>)"
  by (simp add: register_all_def HandleFile_def ImportVisitor_Visit_def)

section \<open>PrintDeps: the loops in closed form\<close>





section \<open>PrintDeps: the rule of a package\<close>




section \<open>PrintDeps: roots and common files\<close>




section \<open>FindMain in closed form\<close>






section \<open>Roots with the same target name\<close>




section \<open>A file given twice\<close>






section \<open>Parse errors\<close>

text \<open>
  A parse error in the loop of \<open>main\<close> ends the run with status 1 before anything is
  printed, provided the parser never returns the nil file without an error.
\<close>

lemma main_loop_parse_error:
  assumes "\<exists>fname \<in> set fs. snd (ParseFile fname ImportsOnly) \<noteq> None"
    and "\<forall>fname \<in> set fs. fst (ParseFile fname ImportsOnly) = None \<longrightarrow> snd (ParseFile fname ImportsOnly) \<noteq> None"
  shows "main_loop ParseFile fs reg = Inl (Exit 1 [])"
  using assms
proof (induction fs arbitrary: reg)
  case Nil
  then show ?case by simp
next
  case (Cons f fs)
  obtain a e where p: "ParseFile f ImportsOnly = (a, e)" by (cases "ParseFile f ImportsOnly")
  show ?case
  proof (cases e)
    case (Some err)
    then show ?thesis by (simp add: p split: option.splits)
  next
    case None
    with Cons.prems p obtain ast where a: "a = Some ast" by (cases a) auto
    from Cons.prems p None have "\<exists>fname \<in> set fs. snd (ParseFile fname ImportsOnly) \<noteq> None" by auto
    moreover from Cons.prems
    have "\<forall>fname \<in> set fs. fst (ParseFile fname ImportsOnly) = None \<longrightarrow> snd (ParseFile fname ImportsOnly) \<noteq> None"
      by simp
    ultimately have "main_loop ParseFile fs (HandleFile f ast reg) = Inl (Exit 1 [])"
      by (rule Cons.IH)
    then show ?thesis by (simp add: p None a)
  qed
qed


text \<open>
  C6. The second parse, in \<open>FindMain\<close>, drops its error. Here \<open>main.go\<close> parses as far as
  its imports and fails when parsed in full (the parser returns the part of the file it
  could read, and an error): the run prints all its output and ends with status 0.
\<close>

theorem main_swallows_second_parse_error:
  "main (\<lambda>fname mode.
           if fname = ''main.go''
           then (case mode of
                   ImportsOnly \<Rightarrow> (Some \<lparr>Name = ''main'', Imports = [''fmt''], FuncDecls = []\<rparr>, None)
                 | ParseAll \<Rightarrow> (Some \<lparr>Name = ''main'', Imports = [''fmt''], FuncDecls = []\<rparr>,
                                Some ''main.go:5:13: expected ')', found '{' ''))
           else (None, Some ''open: no such file or directory''))
        [] ''godep''
        \<lparr>showVersion = False, showNeeded = False, Args = [''main.go'']\<rparr>
   = Exit 0 (''# external packages: fmt '' @ newline @ ''GOFILES = main.go '' @ newline)"
  by (simp add: main_def HandleFile_def ImportVisitor_Visit_def FindMain_def PrintNeeded_def needed_def
        PrintFList_def flist_def PrintDeps_def PrintDeps_lines_def PrintDeps_main_def)


section \<open>The output and the order of enumeration\<close>













end
